theory Spec2Isabelle
  imports Main "HOL-Library.Word" "HOL-Library.Multiset"
begin

section \<open>Data model of \<open>src/utils.cpp\<close>\<close>

text \<open>
  An R integer vector (\<open>Rcpp::IntegerVector\<close>) holds 32-bit signed integers. They are
  kept as 32-bit words: \<open>sint\<close> is the stored \<open>int\<close>, \<open>unat\<close> the same bits read
  through a \<open>uint32_t\<close> pointer.
\<close>

type_synonym int32 = "32 word"

type_synonym IntegerVector = "int32 list"

text \<open>
  The S4 template object is read through named slots only (\<open>p\<close>, \<open>j\<close>, \<open>i\<close>, \<open>Dim\<close>),
  so it is a finite map from slot names to integer vectors. A \<open>dgRMatrix\<close> has the slots
  \<open>p\<close>, \<open>j\<close>, \<open>Dim\<close>; a \<open>dgCMatrix\<close> has \<open>p\<close>, \<open>i\<close>, \<open>Dim\<close>.
\<close>

type_synonym S4 = "string \<rightharpoonup> IntegerVector"

text \<open>
  Everything that stops the call is a value: \<open>Rcpp::stop\<close> with its message, a missing
  slot, an access outside an array or outside the columns of a matrix (a bounds failure of
  the matrix library, or undefined behaviour on the raw pointers \<open>p\<close>, \<open>j\<close> and
  \<open>ptr_approximated_values\<close>), and a product of vectors of different lengths.
\<close>

datatype error =
    stop string
  | no_such_slot string
  | index_out_of_bounds
  | incompatible_dimensions

text \<open>
  \<open>arma::mat\<close>: a dense matrix stored column by column, element \<open>(r, c)\<close> at
  \<open>mem[c * n_rows + r]\<close>. The element type stands for \<open>double\<close>; the development only
  needs a zero, a sum and a product, and no rounding is modelled.
\<close>

record 'a mat =
  n_rows :: nat
  n_cols :: nat
  mem :: "'a list"

definition wf_mat :: "'a mat \<Rightarrow> bool" where
  "wf_mat A \<longleftrightarrow> length (mem A) = n_rows A * n_cols A"

text \<open>
  Modelled from the spec: the header \<open>rsparse.h\<close> that defines the discriminators is not
  among the sources. Section 6 of the specification fixes CSC = 1 and CSR = 2, the values
  the error message of the function prints as well.
\<close>

definition CSC :: int where
  "CSC = 1"

definition CSR :: int where
  "CSR = 2"

section \<open>Primitive accesses\<close>

definition slot :: "S4 \<Rightarrow> string \<Rightarrow> error + IntegerVector" where
  "slot obj name = (case obj name of None \<Rightarrow> Inl (no_such_slot name) | Some v \<Rightarrow> Inr v)"

text \<open>\<open>a[k]\<close> through a raw pointer, read and write, with a signed index as the source has it.\<close>

definition at_vec :: "'b list \<Rightarrow> int \<Rightarrow> error + 'b" where
  "at_vec a k = (if 0 \<le> k \<and> k < int (length a) then Inr (a ! nat k) else Inl index_out_of_bounds)"

definition put_vec :: "'b list \<Rightarrow> int \<Rightarrow> 'b \<Rightarrow> error + 'b list" where
  "put_vec a k v =
     (if 0 \<le> k \<and> k < int (length a) then Inr (a[nat k := v]) else Inl index_out_of_bounds)"

text \<open>Column \<open>c\<close> of a matrix: the \<open>n_rows\<close> elements from \<open>mem[c * n_rows]\<close> on.\<close>

definition column :: "'a mat \<Rightarrow> nat \<Rightarrow> 'a list" where
  "column A c = map (\<lambda>r. mem A ! (c * n_rows A + r)) [0..<n_rows A]"

definition col :: "'a mat \<Rightarrow> nat \<Rightarrow> error + 'a list" where
  "col A c = (if c < n_cols A then Inr (column A c) else Inl index_out_of_bounds)"

text \<open>The inner product of two vectors, and \<open>as_scalar(xc * yc)\<close> for a row and a column.\<close>

definition dot :: "'a::semiring_0 list \<Rightarrow> 'a list \<Rightarrow> 'a" where
  "dot xs ys = sum_list (map2 (*) xs ys)"

definition as_scalar_times :: "'a::semiring_0 list \<Rightarrow> 'a list \<Rightarrow> error + 'a" where
  "as_scalar_times xc yc =
     (if length xc = length yc then Inr (dot xc yc) else Inl incompatible_dimensions)"

section \<open>The approximation routine\<close>

text \<open>
  The inner loop \<open>for (int pp = p1; pp < p2; pp++)\<close>. The index \<open>ind\<close> is \<open>j[pp]\<close> read
  through the \<open>uint32_t\<close> pointer, hence \<open>unat\<close>.
\<close>

function inner_loop ::
  "int \<Rightarrow> 'a::semiring_0 mat \<Rightarrow> 'a mat \<Rightarrow> IntegerVector \<Rightarrow> 'a list \<Rightarrow> int \<Rightarrow> int \<Rightarrow> 'a list
     \<Rightarrow> error + 'a list" where
  "inner_loop sparse_matrix_type X Y j xc pp p2 approximated_values =
     (if pp < p2 then
        (case at_vec j pp of
           Inl e \<Rightarrow> Inl e
         | Inr w \<Rightarrow>
            (let ind = unat w in
             case col (if sparse_matrix_type = CSR then Y else X) ind of
               Inl e \<Rightarrow> Inl e
             | Inr yc \<Rightarrow>
                (case as_scalar_times xc yc of
                   Inl e \<Rightarrow> Inl e
                 | Inr v \<Rightarrow>
                    (case put_vec approximated_values pp v of
                       Inl e \<Rightarrow> Inl e
                     | Inr out \<Rightarrow> inner_loop sparse_matrix_type X Y j xc (pp + 1) p2 out))))
      else Inr approximated_values)"
  by pat_completeness auto
termination
  by (relation "measure (\<lambda>(t, X, Y, j, xc, pp, p2, out). nat (p2 - pp))") auto

declare inner_loop.simps [simp del]

text \<open>
  One iteration of the outer loop, for the outer index \<open>i\<close>. The counter is a \<open>uint32_t\<close>
  below \<open>N < 2 ^ 32\<close>, so \<open>i + 1\<close> does not wrap and the counter is a natural number.
\<close>

definition outer_body ::
  "int \<Rightarrow> 'a::semiring_0 mat \<Rightarrow> 'a mat \<Rightarrow> IntegerVector \<Rightarrow> IntegerVector \<Rightarrow> nat \<Rightarrow> 'a list
     \<Rightarrow> error + 'a list" where
  "outer_body sparse_matrix_type X Y p j i approximated_values =
     (case at_vec p (int i) of
        Inl e \<Rightarrow> Inl e
      | Inr p1 \<Rightarrow>
         (case at_vec p (int i + 1) of
            Inl e \<Rightarrow> Inl e
          | Inr p2 \<Rightarrow>
             (case col (if sparse_matrix_type = CSR then X else Y) i of
                Inl e \<Rightarrow> Inl e
              | Inr xc \<Rightarrow>
                 inner_loop sparse_matrix_type X Y j xc (sint p1) (sint p2) approximated_values)))"

text \<open>The outer loop \<open>for (uint32_t i = 0; i < N; i++)\<close>, run in program order.\<close>

function outer_loop ::
  "int \<Rightarrow> 'a::semiring_0 mat \<Rightarrow> 'a mat \<Rightarrow> IntegerVector \<Rightarrow> IntegerVector \<Rightarrow> nat \<Rightarrow> nat \<Rightarrow> 'a list
     \<Rightarrow> error + 'a list" where
  "outer_loop sparse_matrix_type X Y p j i N approximated_values =
     (if i < N then
        (case outer_body sparse_matrix_type X Y p j i approximated_values of
           Inl e \<Rightarrow> Inl e
         | Inr out \<Rightarrow> outer_loop sparse_matrix_type X Y p j (i + 1) N out)
      else Inr approximated_values)"
  by pat_completeness auto
termination
  by (relation "measure (\<lambda>(t, X, Y, p, j, i, N, out). N - i)") auto

declare outer_loop.simps [simp del]

definition unknown_type_message :: string where
  "unknown_type_message =
     ''make_sparse_approximation_csr doesn't know sparse matrix type. Should be CSC=1 or CSR=2''"

text \<open>
  The part of the function before the loop: the slots are read, the discriminator is
  checked, and the trip count \<open>N\<close> is \<open>dim[0]\<close> or \<open>dim[1]\<close> converted to \<open>uint32_t\<close>.
  It yields \<open>p\<close>, \<open>j\<close> and \<open>N\<close>.
\<close>

definition read_template :: "S4 \<Rightarrow> int \<Rightarrow> error + (IntegerVector \<times> IntegerVector \<times> nat)" where
  "read_template mat_template sparse_matrix_type =
     (case slot mat_template ''p'' of
        Inl e \<Rightarrow> Inl e
      | Inr rp \<Rightarrow>
         (case (if sparse_matrix_type = CSR then slot mat_template ''j''
                else if sparse_matrix_type = CSC then slot mat_template ''i''
                else Inl (stop unknown_type_message)) of
            Inl e \<Rightarrow> Inl e
          | Inr rj \<Rightarrow>
             (case slot mat_template ''Dim'' of
                Inl e \<Rightarrow> Inl e
              | Inr dim \<Rightarrow>
                 (case at_vec dim 0 of
                    Inl e \<Rightarrow> Inl e
                  | Inr nr \<Rightarrow>
                     (case at_vec dim 1 of
                        Inl e \<Rightarrow> Inl e
                      | Inr nc \<Rightarrow>
                         Inr (rp, rj, unat (if sparse_matrix_type = CSR then nr else nc)))))))"

text \<open>
  \<open>cpp_make_sparse_approximation\<close> as it runs without OpenMP (or on one thread): the
  output starts as \<open>rj.length()\<close> zeros and the outer loop runs from 0 to \<open>N\<close>.
  \<open>n_threads\<close> is only named by the \<open>pragma\<close>.
\<close>

definition cpp_make_sparse_approximation ::
  "S4 \<Rightarrow> 'a::semiring_0 mat \<Rightarrow> 'a mat \<Rightarrow> int \<Rightarrow> nat \<Rightarrow> error + 'a list" where
  "cpp_make_sparse_approximation mat_template X Y sparse_matrix_type n_threads =
     (case read_template mat_template sparse_matrix_type of
        Inl e \<Rightarrow> Inl e
      | Inr (p, j, N) \<Rightarrow>
         outer_loop sparse_matrix_type X Y p j 0 N (replicate (length j) 0))"

text \<open>
  With OpenMP the iterations of the outer loop are handed out to \<open>n_threads\<close> workers in
  chunks (\<open>schedule(dynamic, GRAIN_SIZE)\<close>) and finish in an order the runtime chooses.
  An iteration reads shared data and writes only its own slots of the output, so a run is
  described by the order in which the iterations take effect: \<open>omp_for\<close> runs the loop body
  once for each index of that order.
\<close>

primrec omp_for ::
  "int \<Rightarrow> 'a::semiring_0 mat \<Rightarrow> 'a mat \<Rightarrow> IntegerVector \<Rightarrow> IntegerVector \<Rightarrow> nat list \<Rightarrow> 'a list
     \<Rightarrow> error + 'a list" where
  "omp_for sparse_matrix_type X Y p j [] approximated_values = Inr approximated_values"
| "omp_for sparse_matrix_type X Y p j (i # rest) approximated_values =
     (case outer_body sparse_matrix_type X Y p j i approximated_values of
        Inl e \<Rightarrow> Inl e
      | Inr out \<Rightarrow> omp_for sparse_matrix_type X Y p j rest out)"

text \<open>
  The function as it runs with OpenMP. \<open>schedule n_threads N\<close> is the order in which the
  runtime lets the \<open>N\<close> iterations take effect when asked for \<open>n_threads\<close> workers.
\<close>

definition cpp_make_sparse_approximation_omp ::
  "(nat \<Rightarrow> nat \<Rightarrow> nat list) \<Rightarrow> S4 \<Rightarrow> 'a::semiring_0 mat \<Rightarrow> 'a mat \<Rightarrow> int \<Rightarrow> nat
     \<Rightarrow> error + 'a list" where
  "cpp_make_sparse_approximation_omp schedule mat_template X Y sparse_matrix_type n_threads =
     (case read_template mat_template sparse_matrix_type of
        Inl e \<Rightarrow> Inl e
      | Inr (p, j, N) \<Rightarrow>
         omp_for sparse_matrix_type X Y p j (schedule n_threads N) (replicate (length j) 0))"

text \<open>A schedule is admissible when it runs each of the \<open>N\<close> iterations exactly once.\<close>

definition admissible :: "(nat \<Rightarrow> nat \<Rightarrow> nat list) \<Rightarrow> nat \<Rightarrow> nat \<Rightarrow> bool" where
  "admissible schedule n_threads N \<longleftrightarrow> mset (schedule n_threads N) = mset [0..<N]"

section \<open>Well-formed inputs\<close>

text \<open>
  The invariants of section 3 of the specification. The pointer array has one entry more
  than the outer dimension, does not decrease, starts at a valid offset and ends at the
  number of nonzeros.
\<close>

definition wf_outer_ptr :: "IntegerVector \<Rightarrow> nat \<Rightarrow> nat \<Rightarrow> bool" where
  "wf_outer_ptr outer_ptr outer_dim nnz \<longleftrightarrow>
     length outer_ptr = outer_dim + 1 \<and> sorted (map sint outer_ptr) \<and>
     0 \<le> sint (outer_ptr ! 0) \<and> sint (outer_ptr ! outer_dim) = int nnz"

text \<open>Both dimensions are non-negative and every inner index lies in \<open>[0, inner_dim)\<close>.\<close>

definition wf_pattern :: "IntegerVector \<Rightarrow> IntegerVector \<Rightarrow> int32 \<Rightarrow> int32 \<Rightarrow> bool" where
  "wf_pattern outer_ptr inner_index outer_dim inner_dim \<longleftrightarrow>
     0 \<le> sint outer_dim \<and> 0 \<le> sint inner_dim \<and>
     wf_outer_ptr outer_ptr (unat outer_dim) (length inner_index) \<and>
     list_all (\<lambda>w. 0 \<le> sint w \<and> sint w < sint inner_dim) inner_index"

text \<open>\<open>X\<close> has one column per row of the pattern, \<open>Y\<close> one per column, with equally many rows.\<close>

definition wf_factors :: "'a mat \<Rightarrow> 'a mat \<Rightarrow> int32 \<Rightarrow> int32 \<Rightarrow> bool" where
  "wf_factors X Y nrows ncols \<longleftrightarrow>
     wf_mat X \<and> wf_mat Y \<and> n_cols X = unat nrows \<and> n_cols Y = unat ncols \<and>
     n_rows X = n_rows Y"

text \<open>Position \<open>pp\<close> belongs to the run of the outer index \<open>i\<close>.\<close>

definition in_run :: "IntegerVector \<Rightarrow> nat \<Rightarrow> nat \<Rightarrow> bool" where
  "in_run outer_ptr i pp \<longleftrightarrow> sint (outer_ptr ! i) \<le> int pp \<and> int pp < sint (outer_ptr ! (i + 1))"

text \<open>
  What the loops need to run without a failure: a well-formed pointer array, every inner
  index (read unsigned) below the column count of the inner factor, at least \<open>N\<close> columns
  in the outer factor, and factors with equally many rows.
\<close>

definition loop_safe ::
  "int \<Rightarrow> 'a mat \<Rightarrow> 'a mat \<Rightarrow> IntegerVector \<Rightarrow> IntegerVector \<Rightarrow> nat \<Rightarrow> bool" where
  "loop_safe ty X Y p j N \<longleftrightarrow>
     wf_outer_ptr p N (length j) \<and>
     list_all (\<lambda>w. unat w < n_cols (if ty = CSR then Y else X)) j \<and>
     N \<le> n_cols (if ty = CSR then X else Y) \<and> n_rows X = n_rows Y"

text \<open>
  The transposed pattern, in the words of section 8 of the specification (the same logical
  entries expressed in transposed form): the arrays of a matrix stored by rows are the
  arrays of its transpose stored by columns, so the inner-index slot changes its name
  between \<open>j\<close> and \<open>i\<close> and the two dimensions change places.
\<close>

definition transpose_template :: "S4 \<Rightarrow> S4" where
  "transpose_template t =
     t(''i'' := t ''j'', ''j'' := t ''i'', ''Dim'' := map_option rev (t ''Dim''))"

text \<open>A message names a value when the decimal digits of the value occur in it.\<close>

fun is_prefix :: "string \<Rightarrow> string \<Rightarrow> bool" where
  "is_prefix [] t = True"
| "is_prefix (c # s) [] = False"
| "is_prefix (c # s) (d # t) = (c = d \<and> is_prefix s t)"

fun occurs_in :: "string \<Rightarrow> string \<Rightarrow> bool" where
  "occurs_in s [] = (s = [])"
| "occurs_in s (d # t) = (is_prefix s (d # t) \<or> occurs_in s t)"

section \<open>Facts about words, columns and runs\<close>

lemma length_column: "length (column A c) = n_rows A"
  by (simp add: column_def)

lemma uint_sint_mod: "uint (w::int32) = sint w mod 2 ^ 32"
  by (simp add: uint_sint take_bit_eq_mod)

lemma sint_nonneg_unat:
  assumes "0 \<le> sint (w::int32)"
  shows "int (unat w) = sint w"
proof -
  have "sint w < 2 ^ 31" using sint_lt [of w] by simp
  with assms have "sint w mod 2 ^ 32 = sint w" by simp
  then show ?thesis by (simp add: uint_sint_mod)
qed

lemma sint_neg_unat:
  assumes "sint (w::int32) = - int m" "0 < m"
  shows "unat w = 2 ^ 32 - m"
proof -
  have "- (2 ^ 31) \<le> sint w" using sint_ge [of w] by simp
  with assms have m: "int m \<le> 2 ^ 31" by simp
  have "(- int m) mod 2 ^ 32 = 2 ^ 32 - int m"
    using assms(2) m by (simp add: zmod_zminus1_eq_if)
  then have "uint w = 2 ^ 32 - int m" using assms(1) by (simp add: uint_sint_mod)
  then have "int (unat w) = 2 ^ 32 - int m" by simp
  moreover have "m \<le> 2 ^ 32" using m by simp
  then have "int (2 ^ 32 - m) = 2 ^ 32 - int m" by (simp add: of_nat_diff)
  ultimately have "int (unat w) = int (2 ^ 32 - m)" by simp
  then show ?thesis by (simp only: of_nat_eq_iff)
qed

lemma sorted_sint_nth:
  "sorted (map sint (p::IntegerVector)) \<Longrightarrow> a \<le> b \<Longrightarrow> b < length p \<Longrightarrow> sint (p ! a) \<le> sint (p ! b)"
  using sorted_nth_mono [of "map sint p" a b] by simp

lemma in_run_disjoint:
  assumes "sorted (map sint p)" "i \<noteq> k" "i + 1 < length p" "k + 1 < length p" "in_run p i q"
  shows "\<not> in_run p k q"
proof (cases "i < k")
  case True
  then have "sint (p ! (i + 1)) \<le> sint (p ! k)"
    using assms by (intro sorted_sint_nth) auto
  with assms show ?thesis by (auto simp: in_run_def)
next
  case False
  with assms have "k + 1 \<le> i" by simp
  then have "sint (p ! (k + 1)) \<le> sint (p ! i)"
    using assms by (intro sorted_sint_nth) auto
  with assms show ?thesis by (auto simp: in_run_def)
qed

lemma inner_loop_ok:
  fixes xc :: "'a::semiring_0 list"
  assumes "0 \<le> pp" "p2 \<le> int (length out)" "p2 \<le> int (length j)"
    and "\<forall>q. pp \<le> int q \<and> int q < p2 \<longrightarrow> unat (j ! q) < n_cols (if ty = CSR then Y else X)"
    and "length xc = n_rows (if ty = CSR then Y else X)"
  shows "\<exists>out'. inner_loop ty X Y j xc pp p2 out = Inr out' \<and> length out' = length out \<and>
           (\<forall>q. out' ! q = (if pp \<le> int q \<and> int q < p2
                            then dot xc (column (if ty = CSR then Y else X) (unat (j ! q)))
                            else out ! q))"
  using assms
proof (induction "nat (p2 - pp)" arbitrary: pp out)
  case 0
  then have "\<not> pp < p2" by simp
  then show ?case by (subst inner_loop.simps) auto
next
  case (Suc n)
  let ?G = "if ty = CSR then Y else X"
  from Suc.hyps(2) have lt: "pp < p2" by linarith
  let ?v = "dot xc (column ?G (unat (j ! nat pp)))"
  let ?out = "out[nat pp := ?v]"
  have a1: "at_vec j pp = Inr (j ! nat pp)"
    using lt Suc.prems by (simp add: at_vec_def)
  have a2: "col ?G (unat (j ! nat pp)) = Inr (column ?G (unat (j ! nat pp)))"
    using lt Suc.prems(1,4) by (simp add: col_def)
  have a3: "as_scalar_times xc (column ?G (unat (j ! nat pp))) = Inr ?v"
    using Suc.prems(5) by (simp add: as_scalar_times_def length_column)
  have a4: "put_vec out pp ?v = Inr ?out"
    using lt Suc.prems by (simp add: put_vec_def)
  have step: "inner_loop ty X Y j xc pp p2 out = inner_loop ty X Y j xc (pp + 1) p2 ?out"
    using lt a1 a2 a3 a4 by (subst inner_loop.simps) (simp add: Let_def)
  have "n = nat (p2 - (pp + 1))" using Suc.hyps(2) by linarith
  from Suc.hyps(1) [OF this, of ?out] Suc.prems
  obtain out' where o: "inner_loop ty X Y j xc (pp + 1) p2 ?out = Inr out'"
      "length out' = length out"
      "\<forall>q. out' ! q = (if pp + 1 \<le> int q \<and> int q < p2
                            then dot xc (column ?G (unat (j ! q)))
                            else ?out ! q)"
    by auto
  have "out' ! q = (if pp \<le> int q \<and> int q < p2
                            then dot xc (column ?G (unat (j ! q)))
                            else out ! q)" for q
  proof (cases "int q = pp")
    case True
    then have "q = nat pp" by simp
    moreover have "nat pp < length out" using lt Suc.prems by simp
    ultimately show ?thesis using o(3) True lt by simp
  next
    case False
    then have "q \<noteq> nat pp" using Suc.prems(1) by auto
    then show ?thesis using o(3) False by auto
  qed
  with o step show ?case by simp
qed

section \<open>The loops on safe inputs\<close>

lemma outer_body_runs:
  fixes X :: "'a::semiring_0 mat"
  assumes wfp: "wf_outer_ptr p N (length j)"
    and idx: "list_all (\<lambda>w. unat w < n_cols (if ty = CSR then Y else X)) j"
    and rows: "n_rows X = n_rows Y"
    and i: "i < N" and ic: "i < n_cols (if ty = CSR then X else Y)"
    and len: "length out = length j"
  shows "\<exists>out'. outer_body ty X Y p j i out = Inr out' \<and> length out' = length out \<and>
           (\<forall>q. out' ! q =
              (if in_run p i q
               then dot (column (if ty = CSR then X else Y) i)
                        (column (if ty = CSR then Y else X) (unat (j ! q)))
               else out ! q))"
proof -
  let ?F = "if ty = CSR then X else Y" and ?G = "if ty = CSR then Y else X"
  from wfp have lp: "length p = N + 1" and srt: "sorted (map sint p)"
    and p0: "0 \<le> sint (p ! 0)" and pN: "sint (p ! N) = int (length j)"
    by (simp_all add: wf_outer_ptr_def)
  have r1: "at_vec p (int i) = Inr (p ! i)"
    using i lp by (simp add: at_vec_def)
  have r2: "at_vec p (int i + 1) = Inr (p ! (i + 1))"
    using i lp by (simp add: at_vec_def nat_add_distrib)
  have r3: "col ?F i = Inr (column ?F i)"
    using ic by (simp add: col_def)
  have lo: "0 \<le> sint (p ! i)"
    using sorted_sint_nth [OF srt, of 0 i] p0 i lp by simp
  have hi: "sint (p ! (i + 1)) \<le> int (length j)"
    using sorted_sint_nth [OF srt, of "i + 1" N] pN i lp by simp
  have in_cols: "\<forall>q. sint (p ! i) \<le> int q \<and> int q < sint (p ! (i + 1)) \<longrightarrow> unat (j ! q) < n_cols ?G"
    using idx hi by (auto simp: list_all_length)
  have lxc: "length (column ?F i) = n_rows ?G"
    using rows by (simp add: length_column)
  from inner_loop_ok [of "sint (p ! i)" "sint (p ! (i + 1))" out j ty Y X "column ?F i",
      OF lo _ hi in_cols lxc] hi len
  obtain out' where "inner_loop ty X Y j (column ?F i) (sint (p ! i)) (sint (p ! (i + 1))) out = Inr out'"
    "length out' = length out"
    "\<forall>q. out' ! q = (if sint (p ! i) \<le> int q \<and> int q < sint (p ! (i + 1))
                            then dot (column ?F i) (column ?G (unat (j ! q)))
                            else out ! q)"
    by auto
  then show ?thesis
    unfolding outer_body_def in_run_def r1 r2 r3 by simp
qed

lemma outer_body_ok:
  fixes X :: "'a::semiring_0 mat"
  assumes safe: "loop_safe ty X Y p j N" and i: "i < N" and len: "length out = length j"
  shows "\<exists>out'. outer_body ty X Y p j i out = Inr out' \<and> length out' = length out \<and>
           (\<forall>q. out' ! q =
              (if in_run p i q
               then dot (column (if ty = CSR then X else Y) i)
                        (column (if ty = CSR then Y else X) (unat (j ! q)))
               else out ! q))"
proof -
  from safe have a: "wf_outer_ptr p N (length j)"
    and b: "list_all (\<lambda>w. unat w < n_cols (if ty = CSR then Y else X)) j"
    and c: "n_rows X = n_rows Y" and d: "N \<le> n_cols (if ty = CSR then X else Y)"
    by (simp_all add: loop_safe_def)
  from d i have e: "i < n_cols (if ty = CSR then X else Y)" by simp
  from a b c i e len show ?thesis by (rule outer_body_runs)
qed

lemma omp_for_ok:
  fixes X :: "'a::semiring_0 mat"
  assumes safe: "loop_safe ty X Y p j N"
    and "distinct s" "set s \<subseteq> {..<N}" "length out = length j"
  shows "\<exists>out'. omp_for ty X Y p j s out = Inr out' \<and> length out' = length out \<and>
           (\<forall>q. (\<forall>i\<in>set s. in_run p i q \<longrightarrow>
                     out' ! q = dot (column (if ty = CSR then X else Y) i)
                                    (column (if ty = CSR then Y else X) (unat (j ! q)))) \<and>
                ((\<forall>i\<in>set s. \<not> in_run p i q) \<longrightarrow> out' ! q = out ! q))"
  using assms(2-)
proof (induction s arbitrary: out)
  case Nil
  then show ?case by simp
next
  case (Cons i s)
  let ?val = "\<lambda>i q. dot (column (if ty = CSR then X else Y) i)
                          (column (if ty = CSR then Y else X) (unat (j ! q)))"
  from Cons.prems have i: "i < N" and fresh: "i \<notin> set s" and ds: "distinct s"
    and sub: "set s \<subseteq> {..<N}" by auto
  from outer_body_ok [OF safe i Cons.prems(3)]
  obtain out1 where b: "outer_body ty X Y p j i out = Inr out1" "length out1 = length out"
    "\<forall>q. out1 ! q = (if in_run p i q then ?val i q else out ! q)"
    by auto
  from Cons.IH [OF ds sub, of out1] b(2) Cons.prems(3)
  obtain out' where r: "omp_for ty X Y p j s out1 = Inr out'" "length out' = length out1"
    "\<forall>q. (\<forall>k\<in>set s. in_run p k q \<longrightarrow> out' ! q = ?val k q) \<and>
         ((\<forall>k\<in>set s. \<not> in_run p k q) \<longrightarrow> out' ! q = out1 ! q)"
    by auto
  from safe have lp: "length p = N + 1" and srt: "sorted (map sint p)"
    by (simp_all add: loop_safe_def wf_outer_ptr_def)
  have others: "\<forall>k\<in>set s. \<not> in_run p k q" if "in_run p i q" for q
  proof
    fix k assume k: "k \<in> set s"
    with fresh have "i \<noteq> k" by auto
    moreover have "k < N" using k sub by auto
    ultimately show "\<not> in_run p k q"
      using in_run_disjoint [OF srt _ _ _ that, of k] i lp by simp
  qed
  have "(\<forall>k\<in>set (i # s). in_run p k q \<longrightarrow> out' ! q = ?val k q) \<and>
        ((\<forall>k\<in>set (i # s). \<not> in_run p k q) \<longrightarrow> out' ! q = out ! q)" for q
  proof (cases "in_run p i q")
    case True
    with others r(3) b(3) show ?thesis by auto
  next
    case False
    with r(3) b(3) show ?thesis by auto
  qed
  with b r show ?case by simp
qed

lemma outer_loop_omp_for:
  "outer_loop ty X Y p j i N out = omp_for ty X Y p j [i..<N] out"
proof (induction "N - i" arbitrary: i out)
  case 0
  then show ?case by (subst outer_loop.simps) simp
next
  case (Suc n)
  then have lt: "i < N" and n: "n = N - (i + 1)" by simp_all
  show ?case
    using lt Suc.hyps(1) [OF n]
    by (subst outer_loop.simps) (simp add: upt_conv_Cons split: sum.splits)
qed

lemma omp_for_order:
  fixes X :: "'a::semiring_0 mat"
  assumes safe: "loop_safe ty X Y p j N"
    and s: "mset s = mset [0..<N]" and len: "length out = length j"
  shows "omp_for ty X Y p j s out = omp_for ty X Y p j [0..<N] out"
proof -
  let ?val = "\<lambda>i q. dot (column (if ty = CSR then X else Y) i)
                          (column (if ty = CSR then Y else X) (unat (j ! q)))"
  have set_s: "set s = {..<N}"
    using mset_eq_setD [OF s] by auto
  have dist_s: "distinct s"
    using s by (metis distinct_upt mset_eq_imp_distinct_iff)
  have sub1: "set s \<subseteq> {..<N}" using set_s by simp
  from omp_for_ok [OF safe dist_s sub1 len] set_s
  obtain o1 where o1: "omp_for ty X Y p j s out = Inr o1" "length o1 = length out"
    "\<forall>q. (\<forall>i<N. in_run p i q \<longrightarrow> o1 ! q = ?val i q) \<and>
         ((\<forall>i<N. \<not> in_run p i q) \<longrightarrow> o1 ! q = out ! q)"
    by auto
  have sub2: "set [0..<N] \<subseteq> {..<N}" by auto
  from omp_for_ok [OF safe distinct_upt sub2 len]
  obtain o2 where o2: "omp_for ty X Y p j [0..<N] out = Inr o2" "length o2 = length out"
    "\<forall>q. (\<forall>i<N. in_run p i q \<longrightarrow> o2 ! q = ?val i q) \<and>
         ((\<forall>i<N. \<not> in_run p i q) \<longrightarrow> o2 ! q = out ! q)"
    by auto
  have "o1 ! q = o2 ! q" for q
  proof (cases "\<exists>i<N. in_run p i q")
    case True
    then obtain i where "i < N" "in_run p i q" by auto
    with o1(3) o2(3) show ?thesis by metis
  next
    case False
    with o1(3) o2(3) show ?thesis by metis
  qed
  with o1(2) o2(2) have "o1 = o2" by (intro nth_equalityI) simp_all
  with o1(1) o2(1) show ?thesis by simp
qed

lemma CSR_neq_CSC: "CSR \<noteq> CSC"
  by (simp add: CSR_def CSC_def)

lemma read_template_ok:
  assumes "t ''p'' = Some p" "t (if ty = CSR then ''j'' else ''i'') = Some j"
    "t ''Dim'' = Some [nr, nc]" "ty = CSR \<or> ty = CSC"
  shows "read_template t ty = Inr (p, j, unat (if ty = CSR then nr else nc))"
proof -
  have d: "at_vec [nr, nc] 0 = Inr nr" "at_vec [nr, nc] 1 = Inr nc"
    by (simp_all add: at_vec_def)
  from assms(4) show ?thesis
  proof
    assume "ty = CSR"
    with assms(1-3) d show ?thesis by (simp add: read_template_def slot_def)
  next
    assume "ty = CSC"
    moreover have "CSC \<noteq> CSR" using CSR_neq_CSC by simp
    ultimately show ?thesis using assms(1-3) d by (simp add: read_template_def slot_def)
  qed
qed

lemma read_template_unknown:
  assumes "t ''p'' = Some p" "ty \<noteq> CSR" "ty \<noteq> CSC"
  shows "read_template t ty = Inl (stop unknown_type_message)"
  using assms by (simp add: read_template_def slot_def)

lemma wf_index_unat:
  assumes "0 \<le> sint (w::int32)" "sint w < sint (d::int32)"
  shows "unat w < unat d" "unat w = nat (sint w)"
proof -
  have "0 \<le> sint d" using assms by simp
  then have "int (unat d) = sint d" by (rule sint_nonneg_unat)
  moreover have w: "int (unat w) = sint w" using assms(1) by (rule sint_nonneg_unat)
  ultimately show "unat w < unat d" using assms(2) by linarith
  show "unat w = nat (sint w)" using w by linarith
qed

lemma wf_loop_safe:
  assumes "wf_pattern p j (if ty = CSR then nr else nc) (if ty = CSR then nc else nr)"
    and "wf_factors X Y nr nc"
  shows "loop_safe ty X Y p j (unat (if ty = CSR then nr else nc))"
  using assms
  by (auto simp: loop_safe_def wf_pattern_def wf_factors_def list_all_iff wf_index_unat(1))

lemma sequential_ok:
  fixes X :: "'a::semiring_0 mat"
  assumes safe: "loop_safe ty X Y p j N"
  shows "\<exists>out. outer_loop ty X Y p j 0 N (replicate (length j) 0) = Inr out \<and>
           length out = length j \<and>
           (\<forall>i q. i < N \<and> in_run p i q \<longrightarrow>
              out ! q = dot (column (if ty = CSR then X else Y) i)
                            (column (if ty = CSR then Y else X) (unat (j ! q))))"
proof -
  have sub: "set [0..<N] \<subseteq> {..<N}" by auto
  have len: "length (replicate (length j) (0::'a)) = length j" by simp
  from omp_for_ok [OF safe distinct_upt sub len]
  show ?thesis unfolding outer_loop_omp_for by auto
qed

section \<open>Format CSR\<close>

text \<open>
  Claim C1. For a well-formed CSR pattern and factors of matching dimensions, the call
  succeeds and, for every outer index \<open>i\<close> and every position \<open>pp\<close> with
  \<open>outer_ptr[i] \<le> pp < outer_ptr[i + 1]\<close>, output slot \<open>pp\<close> is the inner product of
  column \<open>i\<close> of \<open>X\<close> with column \<open>inner_index[pp]\<close> of \<open>Y\<close>.
\<close>

theorem csr_slot_is_inner_product:
  fixes X :: "'a::semiring_0 mat"
  assumes "mat_template ''p'' = Some outer_ptr"
    and "mat_template ''j'' = Some inner_index"
    and "mat_template ''Dim'' = Some [nrows, ncols]"
    and "wf_pattern outer_ptr inner_index nrows ncols"
    and "wf_factors X Y nrows ncols"
    and "i < unat nrows"
    and "in_run outer_ptr i pp"
  shows "\<exists>out. cpp_make_sparse_approximation mat_template X Y CSR n_threads = Inr out \<and>
           out ! pp = dot (column X i) (column Y (nat (sint (inner_index ! pp))))"
proof -
  have rd: "read_template mat_template CSR = Inr (outer_ptr, inner_index, unat nrows)"
    using read_template_ok [of mat_template outer_ptr CSR inner_index nrows ncols] assms(1-3)
    by simp
  have safe: "loop_safe CSR X Y outer_ptr inner_index (unat nrows)"
    using wf_loop_safe [of outer_ptr inner_index CSR nrows ncols X Y] assms(4,5) by simp
  from sequential_ok [OF safe]
  obtain out where out: "outer_loop CSR X Y outer_ptr inner_index 0 (unat nrows)
        (replicate (length inner_index) 0) = Inr out"
    "length out = length inner_index"
    "\<forall>i q. i < unat nrows \<and> in_run outer_ptr i q \<longrightarrow>
        out ! q = dot (column X i) (column Y (unat (inner_index ! q)))"
    by auto
  have srt: "sorted (map sint outer_ptr)" and lp: "length outer_ptr = unat nrows + 1"
    and pN: "sint (outer_ptr ! unat nrows) = int (length inner_index)"
    using assms(4) by (simp_all add: wf_pattern_def wf_outer_ptr_def)
  have "sint (outer_ptr ! (i + 1)) \<le> sint (outer_ptr ! unat nrows)"
    using sorted_sint_nth [OF srt, of "i + 1" "unat nrows"] assms(6) lp by simp
  then have "pp < length inner_index"
    using assms(7) pN by (simp add: in_run_def)
  then have "0 \<le> sint (inner_index ! pp)"
    using assms(4) by (simp add: wf_pattern_def list_all_length)
  then have "unat (inner_index ! pp) = nat (sint (inner_index ! pp))"
    using sint_nonneg_unat [of "inner_index ! pp"] by linarith
  with out rd assms(6,7) show ?thesis
    by (simp add: cpp_make_sparse_approximation_def)
qed

text \<open>The diagonal pattern of section 8: slot 1 is \<open>2 * 4\<close>.\<close>

theorem csr_slot_is_inner_product_witness:
  "wf_pattern [0, 1, 2] [0, 1] 2 2 \<and>
   wf_factors \<lparr>n_rows = 1, n_cols = 2, mem = [1, 2 :: int]\<rparr>
     \<lparr>n_rows = 1, n_cols = 2, mem = [3, 4]\<rparr> 2 2 \<and>
   in_run [0, 1, 2] 1 1 \<and>
   (\<exists>out. cpp_make_sparse_approximation
       [''p'' \<mapsto> [0, 1, 2], ''j'' \<mapsto> [0, 1], ''Dim'' \<mapsto> [2, 2]]
       \<lparr>n_rows = 1, n_cols = 2, mem = [1, 2 :: int]\<rparr>
       \<lparr>n_rows = 1, n_cols = 2, mem = [3, 4]\<rparr> CSR 1 = Inr out \<and> out ! 1 = 8)"
  using csr_slot_is_inner_product
    [of "[''p'' \<mapsto> [0, 1, 2], ''j'' \<mapsto> [0, 1], ''Dim'' \<mapsto> [2, 2]]" "[0, 1, 2]" "[0, 1]" 2 2
      "\<lparr>n_rows = 1, n_cols = 2, mem = [1, 2 :: int]\<rparr>"
      "\<lparr>n_rows = 1, n_cols = 2, mem = [3, 4]\<rparr>" 1 1 1]
  by (simp add: wf_pattern_def wf_outer_ptr_def wf_factors_def wf_mat_def in_run_def
      column_def dot_def)

section \<open>Format CSC\<close>

text \<open>
  Claim C2. For a well-formed CSC pattern and factors of matching dimensions, the call
  succeeds and, for every outer index \<open>i\<close> and every position \<open>pp\<close> with
  \<open>outer_ptr[i] \<le> pp < outer_ptr[i + 1]\<close>, output slot \<open>pp\<close> is the inner product of
  column \<open>i\<close> of \<open>Y\<close> with column \<open>inner_index[pp]\<close> of \<open>X\<close>.
\<close>

theorem csc_slot_is_inner_product:
  fixes X :: "'a::semiring_0 mat"
  assumes "mat_template ''p'' = Some outer_ptr"
    and "mat_template ''i'' = Some inner_index"
    and "mat_template ''Dim'' = Some [nrows, ncols]"
    and "wf_pattern outer_ptr inner_index ncols nrows"
    and "wf_factors X Y nrows ncols"
    and "i < unat ncols"
    and "in_run outer_ptr i pp"
  shows "\<exists>out. cpp_make_sparse_approximation mat_template X Y CSC n_threads = Inr out \<and>
           out ! pp = dot (column Y i) (column X (nat (sint (inner_index ! pp))))"
proof -
  have ne: "CSC \<noteq> CSR" using CSR_neq_CSC by simp
  have rd: "read_template mat_template CSC = Inr (outer_ptr, inner_index, unat ncols)"
    using read_template_ok [of mat_template outer_ptr CSC inner_index nrows ncols] assms(1-3) ne
    by simp
  have safe: "loop_safe CSC X Y outer_ptr inner_index (unat ncols)"
    using wf_loop_safe [of outer_ptr inner_index CSC nrows ncols X Y] assms(4,5) ne by simp
  from sequential_ok [OF safe] ne
  obtain out where out: "outer_loop CSC X Y outer_ptr inner_index 0 (unat ncols)
        (replicate (length inner_index) 0) = Inr out"
    "length out = length inner_index"
    "\<forall>i q. i < unat ncols \<and> in_run outer_ptr i q \<longrightarrow>
        out ! q = dot (column Y i) (column X (unat (inner_index ! q)))"
    by auto
  have srt: "sorted (map sint outer_ptr)" and lp: "length outer_ptr = unat ncols + 1"
    and pN: "sint (outer_ptr ! unat ncols) = int (length inner_index)"
    using assms(4) by (simp_all add: wf_pattern_def wf_outer_ptr_def)
  have "sint (outer_ptr ! (i + 1)) \<le> sint (outer_ptr ! unat ncols)"
    using sorted_sint_nth [OF srt, of "i + 1" "unat ncols"] assms(6) lp by simp
  then have "pp < length inner_index"
    using assms(7) pN by (simp add: in_run_def)
  then have "0 \<le> sint (inner_index ! pp)"
    using assms(4) by (simp add: wf_pattern_def list_all_length)
  then have "unat (inner_index ! pp) = nat (sint (inner_index ! pp))"
    using sint_nonneg_unat [of "inner_index ! pp"] by linarith
  with out rd assms(6,7) show ?thesis
    by (simp add: cpp_make_sparse_approximation_def)
qed

text \<open>A 2 x 3 pattern stored by columns, with an empty middle column.\<close>

theorem csc_slot_is_inner_product_witness:
  "wf_pattern [0, 2, 2, 3] [0, 1, 1] 3 2 \<and>
   wf_factors \<lparr>n_rows = 2, n_cols = 2, mem = [1, 2, 3, 4 :: int]\<rparr>
     \<lparr>n_rows = 2, n_cols = 3, mem = [5, 6, 7, 8, 9, 10]\<rparr> 2 3 \<and>
   in_run [0, 2, 2, 3] 2 2 \<and>
   (\<exists>out. cpp_make_sparse_approximation
       [''p'' \<mapsto> [0, 2, 2, 3], ''i'' \<mapsto> [0, 1, 1], ''Dim'' \<mapsto> [2, 3]]
       \<lparr>n_rows = 2, n_cols = 2, mem = [1, 2, 3, 4 :: int]\<rparr>
       \<lparr>n_rows = 2, n_cols = 3, mem = [5, 6, 7, 8, 9, 10]\<rparr> CSC 1 = Inr out \<and>
      out ! 2 = 9 * 3 + 10 * 4)"
  using csc_slot_is_inner_product
    [of "[''p'' \<mapsto> [0, 2, 2, 3], ''i'' \<mapsto> [0, 1, 1], ''Dim'' \<mapsto> [2, 3]]"
      "[0, 2, 2, 3]" "[0, 1, 1]" 2 3
      "\<lparr>n_rows = 2, n_cols = 2, mem = [1, 2, 3, 4 :: int]\<rparr>"
      "\<lparr>n_rows = 2, n_cols = 3, mem = [5, 6, 7, 8, 9, 10]\<rparr>" 2 2 1]
  by (simp add: wf_pattern_def wf_outer_ptr_def wf_factors_def wf_mat_def in_run_def
      column_def dot_def upt_conv_Cons)

section \<open>Length and order of the output\<close>

text \<open>
  Claim C3. For a valid pattern in either format and valid factor matrices, the call
  returns an array with as many slots as \<open>inner_index\<close> has entries, in pattern order:
  slot \<open>pp\<close> is the value for the entry \<open>inner_index[pp]\<close> of the outer index whose run
  holds \<open>pp\<close>, and a slot in no run keeps the initial zero.
\<close>

theorem output_length_and_order:
  fixes X :: "'a::semiring_0 mat"
  assumes "sparse_matrix_type = CSR \<or> sparse_matrix_type = CSC"
    and "mat_template ''p'' = Some outer_ptr"
    and "mat_template (if sparse_matrix_type = CSR then ''j'' else ''i'') = Some inner_index"
    and "mat_template ''Dim'' = Some [nrows, ncols]"
    and "wf_pattern outer_ptr inner_index (if sparse_matrix_type = CSR then nrows else ncols)
           (if sparse_matrix_type = CSR then ncols else nrows)"
    and "wf_factors X Y nrows ncols"
  shows "\<exists>out. cpp_make_sparse_approximation mat_template X Y sparse_matrix_type n_threads =
           Inr out \<and> length out = length inner_index \<and>
           (\<forall>pp<length inner_index.
              (\<forall>i<unat (if sparse_matrix_type = CSR then nrows else ncols).
                 in_run outer_ptr i pp \<longrightarrow>
                   out ! pp =
                     dot (column (if sparse_matrix_type = CSR then X else Y) i)
                         (column (if sparse_matrix_type = CSR then Y else X)
                            (nat (sint (inner_index ! pp))))) \<and>
              ((\<forall>i<unat (if sparse_matrix_type = CSR then nrows else ncols).
                  \<not> in_run outer_ptr i pp) \<longrightarrow> out ! pp = 0))"
proof -
  let ?N = "unat (if sparse_matrix_type = CSR then nrows else ncols)"
  let ?F = "if sparse_matrix_type = CSR then X else Y"
  let ?G = "if sparse_matrix_type = CSR then Y else X"
  let ?zeros = "replicate (length inner_index) (0::'a)"
  have rd: "read_template mat_template sparse_matrix_type = Inr (outer_ptr, inner_index, ?N)"
    using assms(1-4) by (rule read_template_ok [OF _ _ _ _, rotated 3])
  have safe: "loop_safe sparse_matrix_type X Y outer_ptr inner_index ?N"
    using assms(5,6) by (rule wf_loop_safe)
  have sub: "set [0..<?N] \<subseteq> {..<?N}" by auto
  have len: "length ?zeros = length inner_index" by simp
  from omp_for_ok [OF safe distinct_upt sub len]
  obtain out where run: "omp_for sparse_matrix_type X Y outer_ptr inner_index [0..<?N] ?zeros = Inr out"
    and lo: "length out = length inner_index"
    and slots: "\<forall>q. (\<forall>i\<in>set [0..<?N]. in_run outer_ptr i q \<longrightarrow>
                     out ! q = dot (column ?F i) (column ?G (unat (inner_index ! q)))) \<and>
                ((\<forall>i\<in>set [0..<?N]. \<not> in_run outer_ptr i q) \<longrightarrow> out ! q = ?zeros ! q)"
    by auto
  have res: "cpp_make_sparse_approximation mat_template X Y sparse_matrix_type n_threads = Inr out"
    using rd run by (simp add: cpp_make_sparse_approximation_def outer_loop_omp_for)
  have each: "(\<forall>i<?N. in_run outer_ptr i pp \<longrightarrow>
                 out ! pp = dot (column ?F i) (column ?G (nat (sint (inner_index ! pp))))) \<and>
              ((\<forall>i<?N. \<not> in_run outer_ptr i pp) \<longrightarrow> out ! pp = 0)"
    if pp: "pp < length inner_index" for pp
  proof -
    have "0 \<le> sint (inner_index ! pp)"
      using assms(5) pp by (simp add: wf_pattern_def list_all_length)
    then have u: "unat (inner_index ! pp) = nat (sint (inner_index ! pp))"
      using sint_nonneg_unat [of "inner_index ! pp"] by linarith
    have z: "?zeros ! pp = 0" using pp by simp
    from slots have "(\<forall>i\<in>set [0..<?N]. in_run outer_ptr i pp \<longrightarrow>
                     out ! pp = dot (column ?F i) (column ?G (unat (inner_index ! pp)))) \<and>
                ((\<forall>i\<in>set [0..<?N]. \<not> in_run outer_ptr i pp) \<longrightarrow> out ! pp = ?zeros ! pp)"
      by (rule spec)
    then show ?thesis unfolding u z by simp
  qed
  from res lo each show ?thesis by blast
qed

text \<open>
  The ragged pattern of section 8, rows with 3, 0 and 1 nonzeros: four slots, and slot 3,
  the only entry of row 2, is \<open>3 * 5\<close>.
\<close>

theorem output_length_and_order_witness:
  "wf_pattern [0, 3, 3, 4] [0, 1, 2, 1] 3 3 \<and>
   (\<exists>out. cpp_make_sparse_approximation
       [''p'' \<mapsto> [0, 3, 3, 4], ''j'' \<mapsto> [0, 1, 2, 1], ''Dim'' \<mapsto> [3, 3]]
       \<lparr>n_rows = 1, n_cols = 3, mem = [1, 2, 3 :: int]\<rparr>
       \<lparr>n_rows = 1, n_cols = 3, mem = [4, 5, 6]\<rparr> CSR 4 = Inr out \<and>
      length out = length [0, 1, 2, 1 :: int32] \<and> out ! 3 = 15)"
proof -
  let ?X = "\<lparr>n_rows = 1, n_cols = 3, mem = [1, 2, 3 :: int]\<rparr>"
  let ?Y = "\<lparr>n_rows = 1, n_cols = 3, mem = [4, 5, 6 :: int]\<rparr>"
  have wf: "wf_pattern [0, 3, 3, 4] [0, 1, 2, 1] 3 3"
    by (simp add: wf_pattern_def wf_outer_ptr_def)
  have wff: "wf_factors ?X ?Y 3 3"
    by (simp add: wf_factors_def wf_mat_def)
  from output_length_and_order
    [of CSR "[''p'' \<mapsto> [0, 3, 3, 4], ''j'' \<mapsto> [0, 1, 2, 1], ''Dim'' \<mapsto> [3, 3]]"
      "[0, 3, 3, 4]" "[0, 1, 2, 1]" 3 3 ?X ?Y 4] wf wff
  obtain out where o: "cpp_make_sparse_approximation
       [''p'' \<mapsto> [0, 3, 3, 4], ''j'' \<mapsto> [0, 1, 2, 1], ''Dim'' \<mapsto> [3, 3]] ?X ?Y CSR 4 = Inr out"
    "length out = length [0, 1, 2, 1 :: int32]"
    "\<forall>pp<length [0, 1, 2, 1 :: int32].
        (\<forall>i<unat (3 :: int32). in_run [0, 3, 3, 4] i pp \<longrightarrow>
           out ! pp = dot (column ?X i) (column ?Y (nat (sint ([0, 1, 2, 1 :: int32] ! pp))))) \<and>
        ((\<forall>i<unat (3 :: int32). \<not> in_run [0, 3, 3, 4] i pp) \<longrightarrow> out ! pp = 0)"
    by auto
  have "(3::nat) < length [0, 1, 2, 1 :: int32]" "(2::nat) < unat (3 :: int32)"
    "in_run [0, 3, 3, 4] 2 3"
    by (simp_all add: in_run_def)
  with o(3) have "out ! 3 = dot (column ?X 2) (column ?Y (nat (sint ([0, 1, 2, 1 :: int32] ! 3))))"
    by blast
  then have "out ! 3 = 15" by (simp add: column_def dot_def)
  with wf o(1,2) show ?thesis by blast
qed

section \<open>Unknown format\<close>

text \<open>
  Claim C4. For a format value that is neither CSR (2) nor CSC (1), the call on a pattern
  fails with the invalid-format error of \<open>Rcpp::stop\<close> and returns no output array, with or
  without OpenMP: the failure comes before the output is allocated and before the loop.
\<close>

theorem unknown_format_fails:
  assumes "sparse_matrix_type \<noteq> CSR" and "sparse_matrix_type \<noteq> CSC"
    and "mat_template ''p'' = Some outer_ptr"
  shows "cpp_make_sparse_approximation mat_template X Y sparse_matrix_type n_threads =
           Inl (stop unknown_type_message) \<and>
         cpp_make_sparse_approximation_omp schedule mat_template X Y sparse_matrix_type n_threads =
           Inl (stop unknown_type_message)"
  using read_template_unknown [of mat_template outer_ptr sparse_matrix_type] assms
  by (simp add: cpp_make_sparse_approximation_def cpp_make_sparse_approximation_omp_def)

theorem unknown_format_fails_witness:
  "cpp_make_sparse_approximation
     [''p'' \<mapsto> [0, 1, 2], ''j'' \<mapsto> [0, 1], ''Dim'' \<mapsto> [2, 2]]
     \<lparr>n_rows = 1, n_cols = 2, mem = [1, 2 :: int]\<rparr>
     \<lparr>n_rows = 1, n_cols = 2, mem = [3, 4]\<rparr> 0 1 = Inl (stop unknown_type_message) \<and>
   cpp_make_sparse_approximation_omp (\<lambda>n N. rev [0..<N])
     [''p'' \<mapsto> [0, 1, 2], ''j'' \<mapsto> [0, 1], ''Dim'' \<mapsto> [2, 2]]
     \<lparr>n_rows = 1, n_cols = 2, mem = [1, 2 :: int]\<rparr>
     \<lparr>n_rows = 1, n_cols = 2, mem = [3, 4]\<rparr> 0 1 = Inl (stop unknown_type_message)"
  using unknown_format_fails
    [of 0 "[''p'' \<mapsto> [0, 1, 2], ''j'' \<mapsto> [0, 1], ''Dim'' \<mapsto> [2, 2]]" "[0, 1, 2]"
      "\<lparr>n_rows = 1, n_cols = 2, mem = [1, 2 :: int]\<rparr>"
      "\<lparr>n_rows = 1, n_cols = 2, mem = [3, 4]\<rparr>" 1 "\<lambda>n N. rev [0..<N]"]
  by (simp add: CSR_def CSC_def)

text \<open>
  Claim C7 says that the message names the received format value and the two accepted
  values. The message is one fixed text: called with the value 3 it does not contain the
  digit 3.
\<close>

theorem message_names_received_value_counterexample:
  "cpp_make_sparse_approximation
     [''p'' \<mapsto> [0, 1, 2], ''j'' \<mapsto> [0, 1], ''Dim'' \<mapsto> [2, 2]]
     \<lparr>n_rows = 1, n_cols = 2, mem = [1, 2 :: int]\<rparr>
     \<lparr>n_rows = 1, n_cols = 2, mem = [3, 4]\<rparr> 3 1 = Inl (stop unknown_type_message) \<and>
   \<not> occurs_in ''3'' unknown_type_message"
  by (simp add: cpp_make_sparse_approximation_def read_template_def slot_def CSR_def CSC_def
      unknown_type_message_def)

text \<open>
  Claim C7, amended. For a format value that is neither CSR nor CSC the call on a pattern
  fails, before anything is computed, with one fixed message that names the two accepted
  values \<open>CSC=1\<close> and \<open>CSR=2\<close>; the received value is not part of it.
\<close>

theorem unknown_format_message:
  assumes "sparse_matrix_type \<noteq> CSR" and "sparse_matrix_type \<noteq> CSC"
    and "mat_template ''p'' = Some outer_ptr"
  shows "\<exists>msg. cpp_make_sparse_approximation mat_template X Y sparse_matrix_type n_threads =
           Inl (stop msg) \<and> msg = unknown_type_message \<and>
           occurs_in ''CSC=1'' msg \<and> occurs_in ''CSR=2'' msg"
proof -
  have "occurs_in ''CSC=1'' unknown_type_message" "occurs_in ''CSR=2'' unknown_type_message"
    by (simp_all add: unknown_type_message_def)
  then show ?thesis
    using read_template_unknown [of mat_template outer_ptr sparse_matrix_type] assms
    by (simp add: cpp_make_sparse_approximation_def)
qed

theorem unknown_format_message_witness:
  "\<exists>msg. cpp_make_sparse_approximation
     [''p'' \<mapsto> [0, 1, 2], ''i'' \<mapsto> [0, 1], ''Dim'' \<mapsto> [2, 2]]
     \<lparr>n_rows = 1, n_cols = 2, mem = [1, 2 :: int]\<rparr>
     \<lparr>n_rows = 1, n_cols = 2, mem = [3, 4]\<rparr> 3 1 = Inl (stop msg) \<and>
     msg = unknown_type_message \<and> occurs_in ''CSC=1'' msg \<and> occurs_in ''CSR=2'' msg"
  using unknown_format_message
    [of 3 "[''p'' \<mapsto> [0, 1, 2], ''i'' \<mapsto> [0, 1], ''Dim'' \<mapsto> [2, 2]]" "[0, 1, 2]"
      "\<lparr>n_rows = 1, n_cols = 2, mem = [1, 2 :: int]\<rparr>"
      "\<lparr>n_rows = 1, n_cols = 2, mem = [3, 4]\<rparr>" 1]
  by (simp add: CSR_def CSC_def)

section \<open>Empty pattern\<close>

lemma zeros_wf_outer_ptr:
  assumes "length p = N + 1" "list_all (\<lambda>w. w = 0) (p::IntegerVector)"
  shows "wf_outer_ptr p N 0"
proof -
  have z: "p ! k = 0" if "k < length p" for k
    using assms(2) that by (simp add: list_all_length)
  have "sorted (map sint p)"
    by (simp add: sorted_iff_nth_mono z)
  moreover have "p ! 0 = 0" "p ! N = 0" using z assms(1) by simp_all
  ultimately show ?thesis using assms(1) by (simp add: wf_outer_ptr_def)
qed

text \<open>
  Claim C8. For a pattern without nonzeros (\<open>inner_index\<close> empty, every entry of
  \<open>outer_ptr\<close> zero) and valid factor matrices, the call returns the empty array.
\<close>

theorem empty_pattern_empty_output:
  fixes X :: "'a::semiring_0 mat"
  assumes "sparse_matrix_type = CSR \<or> sparse_matrix_type = CSC"
    and "mat_template ''p'' = Some outer_ptr"
    and "mat_template (if sparse_matrix_type = CSR then ''j'' else ''i'') = Some []"
    and "mat_template ''Dim'' = Some [nrows, ncols]"
    and "length outer_ptr = unat (if sparse_matrix_type = CSR then nrows else ncols) + 1"
    and "list_all (\<lambda>w. w = 0) outer_ptr"
    and "wf_factors X Y nrows ncols"
  shows "cpp_make_sparse_approximation mat_template X Y sparse_matrix_type n_threads = Inr []"
proof -
  let ?N = "unat (if sparse_matrix_type = CSR then nrows else ncols)"
  have rd: "read_template mat_template sparse_matrix_type = Inr (outer_ptr, [], ?N)"
    using assms(1-4) by (rule read_template_ok [OF _ _ _ _, rotated 3])
  have "wf_outer_ptr outer_ptr ?N 0"
    using assms(5,6) by (rule zeros_wf_outer_ptr)
  then have safe: "loop_safe sparse_matrix_type X Y outer_ptr [] ?N"
    using assms(7) by (simp add: loop_safe_def wf_factors_def)
  from sequential_ok [OF safe] rd show ?thesis
    by (auto simp: cpp_make_sparse_approximation_def)
qed

theorem empty_pattern_empty_output_witness:
  "wf_factors \<lparr>n_rows = 1, n_cols = 2, mem = [1, 2 :: int]\<rparr>
     \<lparr>n_rows = 1, n_cols = 3, mem = [3, 4, 5]\<rparr> 2 3 \<and>
   cpp_make_sparse_approximation
     [''p'' \<mapsto> [0, 0, 0, 0], ''i'' \<mapsto> [], ''Dim'' \<mapsto> [2, 3]]
     \<lparr>n_rows = 1, n_cols = 2, mem = [1, 2 :: int]\<rparr>
     \<lparr>n_rows = 1, n_cols = 3, mem = [3, 4, 5]\<rparr> CSC 2 = Inr []"
  using empty_pattern_empty_output
    [of CSC "[''p'' \<mapsto> [0, 0, 0, 0], ''i'' \<mapsto> [], ''Dim'' \<mapsto> [2, 3]]" "[0, 0, 0, 0]" 2 3
      "\<lparr>n_rows = 1, n_cols = 2, mem = [1, 2 :: int]\<rparr>"
      "\<lparr>n_rows = 1, n_cols = 3, mem = [3, 4, 5]\<rparr>" 2]
  by (simp add: wf_factors_def wf_mat_def CSR_def CSC_def)

section \<open>Transposition\<close>

lemma inner_loop_roles:
  "inner_loop CSC Y X j xc pp p2 out = inner_loop CSR X Y j xc pp p2 out"
proof (induction "nat (p2 - pp)" arbitrary: pp out)
  case 0
  then show ?case
    by (simp add: inner_loop.simps [of _ _ _ j xc pp p2 out])
next
  case (Suc n)
  have "n = nat (p2 - (pp + 1))" using Suc.hyps(2) by linarith
  from Suc.hyps(1) [OF this] show ?case
    using CSR_neq_CSC
    by (simp add: inner_loop.simps [of _ _ _ j xc pp p2 out] Let_def split: sum.splits)
qed

lemma outer_body_roles:
  "outer_body CSC Y X p j i out = outer_body CSR X Y p j i out"
  using CSR_neq_CSC by (simp add: outer_body_def inner_loop_roles split: sum.splits)

lemma omp_for_roles:
  "omp_for CSC Y X p j s out = omp_for CSR X Y p j s out"
  by (induction s arbitrary: out) (simp_all add: outer_body_roles split: sum.splits)

lemma read_template_transpose:
  assumes "t ''j'' = Some inner_index" "t ''Dim'' = Some [nrows, ncols]"
  shows "read_template (transpose_template t) CSC = read_template t CSR"
proof -
  have ne: "CSC \<noteq> CSR" using CSR_neq_CSC by simp
  have d: "at_vec [nrows, ncols] 0 = Inr nrows" "at_vec [nrows, ncols] 1 = Inr ncols"
    "at_vec [ncols, nrows] 0 = Inr ncols" "at_vec [ncols, nrows] 1 = Inr nrows"
    by (simp_all add: at_vec_def)
  show ?thesis
    using assms ne d
    by (cases "t ''p''") (simp_all add: read_template_def slot_def transpose_template_def)
qed

text \<open>
  Claim C6. The CSR approximation of a pattern with \<open>(X, Y)\<close> equals the CSC approximation
  of the transposed pattern with \<open>(Y, X)\<close>. It holds for every template that has an
  inner-index slot and two dimensions, valid or not, failures included.
\<close>

theorem csr_equals_csc_of_transpose:
  fixes X :: "'a::semiring_0 mat"
  assumes "mat_template ''j'' = Some inner_index"
    and "mat_template ''Dim'' = Some [nrows, ncols]"
  shows "cpp_make_sparse_approximation mat_template X Y CSR n_threads =
         cpp_make_sparse_approximation (transpose_template mat_template) Y X CSC n_threads"
  using read_template_transpose [OF assms]
  by (simp add: cpp_make_sparse_approximation_def outer_loop_omp_for omp_for_roles
      split: sum.splits)

text \<open>A 2 x 3 pattern with entries (0,0), (0,2), (1,1) and factors with two latent rows.\<close>

theorem csr_equals_csc_of_transpose_witness:
  "cpp_make_sparse_approximation
     [''p'' \<mapsto> [0, 2, 3], ''j'' \<mapsto> [0, 2, 1], ''Dim'' \<mapsto> [2, 3]]
     \<lparr>n_rows = 2, n_cols = 2, mem = [1, 2, 3, 4 :: int]\<rparr>
     \<lparr>n_rows = 2, n_cols = 3, mem = [5, 6, 7, 8, 9, 10]\<rparr> CSR 1 = Inr [17, 29, 53] \<and>
   cpp_make_sparse_approximation
     (transpose_template [''p'' \<mapsto> [0, 2, 3], ''j'' \<mapsto> [0, 2, 1], ''Dim'' \<mapsto> [2, 3]])
     \<lparr>n_rows = 2, n_cols = 3, mem = [5, 6, 7, 8, 9, 10]\<rparr>
     \<lparr>n_rows = 2, n_cols = 2, mem = [1, 2, 3, 4 :: int]\<rparr> CSC 1 = Inr [17, 29, 53]"
proof -
  have "cpp_make_sparse_approximation
     [''p'' \<mapsto> [0, 2, 3], ''j'' \<mapsto> [0, 2, 1], ''Dim'' \<mapsto> [2, 3]]
     \<lparr>n_rows = 2, n_cols = 2, mem = [1, 2, 3, 4 :: int]\<rparr>
     \<lparr>n_rows = 2, n_cols = 3, mem = [5, 6, 7, 8, 9, 10]\<rparr> CSR 1 = Inr [17, 29, 53]"
    by (simp add: cpp_make_sparse_approximation_def read_template_def slot_def at_vec_def
        inner_loop.simps outer_loop.simps put_vec_def outer_body_def col_def column_def
        as_scalar_times_def dot_def upt_conv_Cons)
  then show ?thesis
    using csr_equals_csc_of_transpose
      [of "[''p'' \<mapsto> [0, 2, 3], ''j'' \<mapsto> [0, 2, 1], ''Dim'' \<mapsto> [2, 3]]" "[0, 2, 1]" 2 3
        "\<lparr>n_rows = 2, n_cols = 2, mem = [1, 2, 3, 4 :: int]\<rparr>"
        "\<lparr>n_rows = 2, n_cols = 3, mem = [5, 6, 7, 8, 9, 10]\<rparr>" 1]
    by simp
qed

section \<open>Thread count\<close>

text \<open>
  Claim C5. For valid inputs the result does not depend on \<open>n_threads\<close>: whatever
  admissible order the OpenMP runtime chooses for one thread count and for another, the two
  runs return the same array, which is also the array of the loop run in program order.
\<close>

theorem thread_count_invariance:
  fixes X :: "'a::semiring_0 mat"
  assumes "sparse_matrix_type = CSR \<or> sparse_matrix_type = CSC"
    and "mat_template ''p'' = Some outer_ptr"
    and "mat_template (if sparse_matrix_type = CSR then ''j'' else ''i'') = Some inner_index"
    and "mat_template ''Dim'' = Some [nrows, ncols]"
    and "wf_pattern outer_ptr inner_index (if sparse_matrix_type = CSR then nrows else ncols)
           (if sparse_matrix_type = CSR then ncols else nrows)"
    and "wf_factors X Y nrows ncols"
    and "admissible schedule1 n_threads1 (unat (if sparse_matrix_type = CSR then nrows else ncols))"
    and "admissible schedule2 n_threads2 (unat (if sparse_matrix_type = CSR then nrows else ncols))"
  shows "cpp_make_sparse_approximation_omp schedule1 mat_template X Y sparse_matrix_type n_threads1 =
         cpp_make_sparse_approximation_omp schedule2 mat_template X Y sparse_matrix_type n_threads2 \<and>
         cpp_make_sparse_approximation_omp schedule1 mat_template X Y sparse_matrix_type n_threads1 =
         cpp_make_sparse_approximation mat_template X Y sparse_matrix_type n_threads2"
proof -
  let ?N = "unat (if sparse_matrix_type = CSR then nrows else ncols)"
  let ?zeros = "replicate (length inner_index) (0::'a)"
  have rd: "read_template mat_template sparse_matrix_type = Inr (outer_ptr, inner_index, ?N)"
    using assms(1-4) by (rule read_template_ok [OF _ _ _ _, rotated 3])
  have safe: "loop_safe sparse_matrix_type X Y outer_ptr inner_index ?N"
    using assms(5,6) by (rule wf_loop_safe)
  have len: "length ?zeros = length inner_index" by simp
  have s1: "mset (schedule1 n_threads1 ?N) = mset [0..<?N]"
    using assms(7) by (simp add: admissible_def)
  have s2: "mset (schedule2 n_threads2 ?N) = mset [0..<?N]"
    using assms(8) by (simp add: admissible_def)
  have r1: "omp_for sparse_matrix_type X Y outer_ptr inner_index (schedule1 n_threads1 ?N) ?zeros =
        omp_for sparse_matrix_type X Y outer_ptr inner_index [0..<?N] ?zeros"
    using safe s1 len by (rule omp_for_order)
  have r2: "omp_for sparse_matrix_type X Y outer_ptr inner_index (schedule2 n_threads2 ?N) ?zeros =
        omp_for sparse_matrix_type X Y outer_ptr inner_index [0..<?N] ?zeros"
    using safe s2 len by (rule omp_for_order)
  show ?thesis
    unfolding cpp_make_sparse_approximation_omp_def cpp_make_sparse_approximation_def rd
      outer_loop_omp_for
    using r1 r2 by simp
qed

text \<open>
  The ragged pattern of section 8, with the iterations in program order on one thread and
  in reverse order on eight.
\<close>

theorem thread_count_invariance_witness:
  "admissible (\<lambda>n N. if n = 1 then [0..<N] else rev [0..<N]) 1 3 \<and>
   admissible (\<lambda>n N. if n = 1 then [0..<N] else rev [0..<N]) 8 3 \<and>
   cpp_make_sparse_approximation_omp (\<lambda>n N. if n = 1 then [0..<N] else rev [0..<N])
     [''p'' \<mapsto> [0, 3, 3, 4], ''j'' \<mapsto> [0, 1, 2, 1], ''Dim'' \<mapsto> [3, 3]]
     \<lparr>n_rows = 1, n_cols = 3, mem = [1, 2, 3 :: int]\<rparr>
     \<lparr>n_rows = 1, n_cols = 3, mem = [4, 5, 6]\<rparr> CSR 1 =
   cpp_make_sparse_approximation_omp (\<lambda>n N. if n = 1 then [0..<N] else rev [0..<N])
     [''p'' \<mapsto> [0, 3, 3, 4], ''j'' \<mapsto> [0, 1, 2, 1], ''Dim'' \<mapsto> [3, 3]]
     \<lparr>n_rows = 1, n_cols = 3, mem = [1, 2, 3 :: int]\<rparr>
     \<lparr>n_rows = 1, n_cols = 3, mem = [4, 5, 6]\<rparr> CSR 8"
  using thread_count_invariance
    [of CSR "[''p'' \<mapsto> [0, 3, 3, 4], ''j'' \<mapsto> [0, 1, 2, 1], ''Dim'' \<mapsto> [3, 3]]"
      "[0, 3, 3, 4]" "[0, 1, 2, 1]" 3 3
      "\<lparr>n_rows = 1, n_cols = 3, mem = [1, 2, 3 :: int]\<rparr>"
      "\<lparr>n_rows = 1, n_cols = 3, mem = [4, 5, 6]\<rparr>"
      "\<lambda>n N. if n = 1 then [0..<N] else rev [0..<N]" 1
      "\<lambda>n N. if n = 1 then [0..<N] else rev [0..<N]" 8]
  by (simp add: wf_pattern_def wf_outer_ptr_def wf_factors_def wf_mat_def admissible_def)

lemma reverse_order_run:
  "cpp_make_sparse_approximation_omp (\<lambda>n N. if n = 1 then [0..<N] else rev [0..<N])
     [''p'' \<mapsto> [0, 3, 3, 4], ''j'' \<mapsto> [0, 1, 2, 1], ''Dim'' \<mapsto> [3, 3]]
     \<lparr>n_rows = 1, n_cols = 3, mem = [1, 2, 3 :: int]\<rparr>
     \<lparr>n_rows = 1, n_cols = 3, mem = [4, 5, 6]\<rparr> CSR 8 = Inr [4, 5, 6, 15]"
  by (simp add: cpp_make_sparse_approximation_omp_def read_template_def slot_def at_vec_def
      inner_loop.simps put_vec_def outer_body_def col_def column_def
      as_scalar_times_def dot_def upt_conv_Cons)

text \<open>
  The order matters once the pointer array decreases: with \<open>outer_ptr = [0, 2, 1, 2]\<close> the
  runs of the outer indices 0 and 2 share slot 1, and the last writer wins.
\<close>

lemma overlapping_runs_depend_on_order:
  "cpp_make_sparse_approximation_omp (\<lambda>n N. if n = 1 then [0..<N] else rev [0..<N])
     [''p'' \<mapsto> [0, 2, 1, 2], ''j'' \<mapsto> [0, 0], ''Dim'' \<mapsto> [3, 1]]
     \<lparr>n_rows = 1, n_cols = 3, mem = [1, 2, 3 :: int]\<rparr>
     \<lparr>n_rows = 1, n_cols = 1, mem = [1]\<rparr> CSR 1 = Inr [1, 3] \<and>
   cpp_make_sparse_approximation_omp (\<lambda>n N. if n = 1 then [0..<N] else rev [0..<N])
     [''p'' \<mapsto> [0, 2, 1, 2], ''j'' \<mapsto> [0, 0], ''Dim'' \<mapsto> [3, 1]]
     \<lparr>n_rows = 1, n_cols = 3, mem = [1, 2, 3 :: int]\<rparr>
     \<lparr>n_rows = 1, n_cols = 1, mem = [1]\<rparr> CSR 8 = Inr [1, 1]"
  by (simp add: cpp_make_sparse_approximation_omp_def read_template_def slot_def at_vec_def
      inner_loop.simps put_vec_def outer_body_def col_def column_def
      as_scalar_times_def dot_def upt_conv_Cons)

section \<open>Inner indices are read unsigned\<close>

text \<open>
  Claim C9. The inner-index array holds signed integers and is read through a
  \<open>uint32_t\<close> pointer with no check of the sign: whenever the loops run through, the
  column used for slot \<open>pp\<close> is the stored \<open>inner_index[pp]\<close> modulo \<open>2 ^ 32\<close>, so a
  stored \<open>- m\<close> selects column \<open>2 ^ 32 - m\<close> and is not rejected.
\<close>

theorem inner_index_read_unsigned:
  fixes X :: "'a::semiring_0 mat"
  assumes "sparse_matrix_type = CSR \<or> sparse_matrix_type = CSC"
    and "mat_template ''p'' = Some outer_ptr"
    and "mat_template (if sparse_matrix_type = CSR then ''j'' else ''i'') = Some inner_index"
    and "mat_template ''Dim'' = Some [nrows, ncols]"
    and "loop_safe sparse_matrix_type X Y outer_ptr inner_index
           (unat (if sparse_matrix_type = CSR then nrows else ncols))"
    and "i < unat (if sparse_matrix_type = CSR then nrows else ncols)"
    and "in_run outer_ptr i pp"
  shows "\<exists>out. cpp_make_sparse_approximation mat_template X Y sparse_matrix_type n_threads =
           Inr out \<and>
           out ! pp =
             dot (column (if sparse_matrix_type = CSR then X else Y) i)
                 (column (if sparse_matrix_type = CSR then Y else X)
                    (nat (sint (inner_index ! pp) mod 2 ^ 32))) \<and>
           (\<forall>m. 0 < m \<and> sint (inner_index ! pp) = - int m \<longrightarrow>
              out ! pp =
                dot (column (if sparse_matrix_type = CSR then X else Y) i)
                    (column (if sparse_matrix_type = CSR then Y else X) (2 ^ 32 - m)))"
proof -
  let ?N = "unat (if sparse_matrix_type = CSR then nrows else ncols)"
  let ?F = "if sparse_matrix_type = CSR then X else Y"
  let ?G = "if sparse_matrix_type = CSR then Y else X"
  have rd: "read_template mat_template sparse_matrix_type = Inr (outer_ptr, inner_index, ?N)"
    using assms(1-4) by (rule read_template_ok [OF _ _ _ _, rotated 3])
  from sequential_ok [OF assms(5)]
  obtain out where out:
    "outer_loop sparse_matrix_type X Y outer_ptr inner_index 0 ?N
       (replicate (length inner_index) 0) = Inr out"
    "\<forall>i q. i < ?N \<and> in_run outer_ptr i q \<longrightarrow>
       out ! q = dot (column ?F i) (column ?G (unat (inner_index ! q)))"
    by blast
  have v: "out ! pp = dot (column ?F i) (column ?G (unat (inner_index ! pp)))"
    using out(2) assms(6,7) by blast
  have "int (unat (inner_index ! pp)) = sint (inner_index ! pp) mod 2 ^ 32"
    using uint_sint_mod [of "inner_index ! pp"] by simp
  then have u: "unat (inner_index ! pp) = nat (sint (inner_index ! pp) mod 2 ^ 32)"
    by linarith
  have n: "unat (inner_index ! pp) = 2 ^ 32 - m"
    if "0 < m \<and> sint (inner_index ! pp) = - int m" for m
    using that sint_neg_unat [of "inner_index ! pp" m] by simp
  have "cpp_make_sparse_approximation mat_template X Y sparse_matrix_type n_threads = Inr out"
    using rd out(1) by (simp add: cpp_make_sparse_approximation_def)
  moreover have "out ! pp = dot (column ?F i) (column ?G (nat (sint (inner_index ! pp) mod 2 ^ 32)))"
    using v u by simp
  moreover have "\<forall>m. 0 < m \<and> sint (inner_index ! pp) = - int m \<longrightarrow>
      out ! pp = dot (column ?F i) (column ?G (2 ^ 32 - m))"
  proof (intro allI impI)
    fix m assume "0 < m \<and> sint (inner_index ! pp) = - int m"
    then have "unat (inner_index ! pp) = 2 ^ 32 - m" by (rule n)
    with v show "out ! pp = dot (column ?F i) (column ?G (2 ^ 32 - m))" by simp
  qed
  ultimately show ?thesis by blast
qed

text \<open>
  A stored \<open>-1\<close> against a factor \<open>Y\<close> of \<open>2 ^ 32\<close> columns, all entries 1: the call
  succeeds and slot 0 is the product with column \<open>2 ^ 32 - 1\<close>.
\<close>

theorem inner_index_read_unsigned_witness:
  "sint (- 1 :: int32) = - int 1 \<and>
   loop_safe CSR \<lparr>n_rows = 1, n_cols = 1, mem = [5 :: int]\<rparr>
     \<lparr>n_rows = 1, n_cols = 2 ^ 32, mem = replicate (2 ^ 32) 1\<rparr> [0, 1] [- 1] 1 \<and>
   (\<exists>out. cpp_make_sparse_approximation
       [''p'' \<mapsto> [0, 1], ''j'' \<mapsto> [- 1], ''Dim'' \<mapsto> [1, 1]]
       \<lparr>n_rows = 1, n_cols = 1, mem = [5 :: int]\<rparr>
       \<lparr>n_rows = 1, n_cols = 2 ^ 32, mem = replicate (2 ^ 32) 1\<rparr> CSR 1 = Inr out \<and>
      out ! 0 = dot [5] (column \<lparr>n_rows = 1, n_cols = 2 ^ 32, mem = replicate (2 ^ 32) 1\<rparr>
                           (2 ^ 32 - 1)) \<and>
      out ! 0 = 5)"
proof -
  have s: "sint (- 1 :: int32) = - int 1" by simp
  have u: "unat (- 1 :: int32) = 2 ^ 32 - 1"
    using sint_neg_unat [OF s] by simp
  have safe: "loop_safe CSR \<lparr>n_rows = 1, n_cols = 1, mem = [5 :: int]\<rparr>
     \<lparr>n_rows = 1, n_cols = 2 ^ 32, mem = replicate (2 ^ 32) 1\<rparr> [0, 1] [- 1] 1"
    using u by (simp add: loop_safe_def wf_outer_ptr_def)
  have c: "column \<lparr>n_rows = 1, n_cols = 2 ^ 32, mem = replicate (2 ^ 32) (1::int)\<rparr> (2 ^ 32 - 1) = [1]"
    by (simp add: column_def)
  from inner_index_read_unsigned
    [of CSR "[''p'' \<mapsto> [0, 1], ''j'' \<mapsto> [- 1], ''Dim'' \<mapsto> [1, 1]]" "[0, 1]" "[- 1]" 1 1
      "\<lparr>n_rows = 1, n_cols = 1, mem = [5 :: int]\<rparr>"
      "\<lparr>n_rows = 1, n_cols = 2 ^ 32, mem = replicate (2 ^ 32) 1\<rparr>" 0 0 1] safe
  obtain out where o: "cpp_make_sparse_approximation
       [''p'' \<mapsto> [0, 1], ''j'' \<mapsto> [- 1], ''Dim'' \<mapsto> [1, 1]]
       \<lparr>n_rows = 1, n_cols = 1, mem = [5 :: int]\<rparr>
       \<lparr>n_rows = 1, n_cols = 2 ^ 32, mem = replicate (2 ^ 32) 1\<rparr> CSR 1 = Inr out"
     "\<forall>m. 0 < m \<and> sint (- 1 :: int32) = - int m \<longrightarrow>
        out ! 0 = dot (column \<lparr>n_rows = 1, n_cols = 1, mem = [5 :: int]\<rparr> 0)
          (column \<lparr>n_rows = 1, n_cols = 2 ^ 32, mem = replicate (2 ^ 32) 1\<rparr> (2 ^ 32 - m))"
    by (auto simp: in_run_def)
  from o(2) have "out ! 0 = dot (column \<lparr>n_rows = 1, n_cols = 1, mem = [5 :: int]\<rparr> 0)
          (column \<lparr>n_rows = 1, n_cols = 2 ^ 32, mem = replicate (2 ^ 32) 1\<rparr> (2 ^ 32 - 1))"
    using s by (metis zero_less_one)
  then have "out ! 0 = dot [5] (column \<lparr>n_rows = 1, n_cols = 2 ^ 32, mem = replicate (2 ^ 32) 1\<rparr>
                           (2 ^ 32 - 1))"
    by (simp add: column_def)
  moreover from this have "out ! 0 = 5" unfolding c by (simp add: dot_def)
  ultimately show ?thesis using s safe o(1) by blast
qed

section \<open>The outer factor is read for every outer index\<close>








section \<open>The scenarios of the specification\<close>

text \<open>
  Section 8: the diagonal pattern with \<open>X = [[1, 2]]\<close> and \<open>Y = [[3, 4]]\<close> gives
  \<open>[3, 8]\<close> in both formats, and in the ragged pattern the empty row 1 leaves no trace.
\<close>

lemma diagonal_scenario_csr:
  "cpp_make_sparse_approximation
     [''p'' \<mapsto> [0, 1, 2], ''j'' \<mapsto> [0, 1], ''Dim'' \<mapsto> [2, 2]]
     \<lparr>n_rows = 1, n_cols = 2, mem = [1, 2 :: int]\<rparr>
     \<lparr>n_rows = 1, n_cols = 2, mem = [3, 4]\<rparr> CSR 1 = Inr [3, 8]"
  by (simp add: cpp_make_sparse_approximation_def read_template_def slot_def at_vec_def
      inner_loop.simps outer_loop.simps put_vec_def outer_body_def col_def column_def
      as_scalar_times_def dot_def CSR_def CSC_def)

lemma diagonal_scenario_csc:
  "cpp_make_sparse_approximation
     [''p'' \<mapsto> [0, 1, 2], ''i'' \<mapsto> [0, 1], ''Dim'' \<mapsto> [2, 2]]
     \<lparr>n_rows = 1, n_cols = 2, mem = [1, 2 :: int]\<rparr>
     \<lparr>n_rows = 1, n_cols = 2, mem = [3, 4]\<rparr> CSC 1 = Inr [3, 8]"
  by (simp add: cpp_make_sparse_approximation_def read_template_def slot_def at_vec_def
      inner_loop.simps outer_loop.simps put_vec_def outer_body_def col_def column_def
      as_scalar_times_def dot_def CSR_def CSC_def)

lemma ragged_scenario_csr:
  "cpp_make_sparse_approximation
     [''p'' \<mapsto> [0, 3, 3, 4], ''j'' \<mapsto> [0, 1, 2, 1], ''Dim'' \<mapsto> [3, 3]]
     \<lparr>n_rows = 1, n_cols = 3, mem = [1, 2, 3 :: int]\<rparr>
     \<lparr>n_rows = 1, n_cols = 3, mem = [4, 5, 6]\<rparr> CSR 1 = Inr [4, 5, 6, 15]"
  by (simp add: cpp_make_sparse_approximation_def read_template_def slot_def at_vec_def
      inner_loop.simps outer_loop.simps put_vec_def outer_body_def col_def column_def
      as_scalar_times_def dot_def CSR_def CSC_def)

end
